theory Spec2Isabelle
  imports Complex_Main "HOL-Library.Sublist"
begin

section \<open>Values, dictionaries and data frames\<close>

text \<open>
  The module \<^verbatim>\<open>query_rewriter/query/relaxer.py\<close> works on Python dictionaries and on pandas
  data frames. A dictionary is an association list in insertion order with pairwise
  distinct keys. Numbers are modelled by their exact value: an \<^verbatim>\<open>int\<close> is an \<open>int\<close>, a
  finite \<^verbatim>\<open>float\<close> is a \<open>real\<close> (rounding and infinities are not modelled), and the float
  \<^verbatim>\<open>nan\<close> is a constructor of its own. A character of a \<open>string\<close> stands for one Python
  character.
\<close>

datatype pyerror = KeyError | ValueError | TypeError

text \<open>A cell of a data frame, which is also a value of an RFD record taken from a row.\<close>

datatype cell = CNaN | CNum real | CStr string

text \<open>A value of a query: a scalar, or a list once the attribute has been relaxed.\<close>

datatype pyval =
    PInt int
  | PBool bool
  | PFloat real
  | PNaN
  | PStr string
  | PList "pyval list"
  | PNone

type_synonym rfd = "(string \<times> cell) list"
type_synonym query = "(string \<times> pyval) list"

text \<open>\<^verbatim>\<open>d[k] = v\<close>: an existing key keeps its position, a new key goes to the end.\<close>

fun setitem :: "('k \<times> 'v) list \<Rightarrow> 'k \<Rightarrow> 'v \<Rightarrow> ('k \<times> 'v) list" where
  "setitem [] k v = [(k, v)]"
| "setitem ((k', v') # d) k v = (if k' = k then (k, v) # d else (k', v') # setitem d k v)"

text \<open>
  A data frame: the column labels, and the rows in order, each with its index label.
  A row that has no entry for a column reads as NaN there, as in a frame built from
  records.
\<close>

record dataframe =
  columns :: "string list"
  rows :: "(int \<times> rfd) list"

definition cell_at :: "rfd \<Rightarrow> string \<Rightarrow> cell" where
  "cell_at r a = (case map_of r a of Some c \<Rightarrow> c | None \<Rightarrow> CNaN)"

definition isnull :: "cell \<Rightarrow> bool" where
  "isnull c = (c = CNaN)"

text \<open>\<^verbatim>\<open>df[col]\<close>: the values of a column in row order; an unknown label raises.\<close>

definition getitem_col :: "dataframe \<Rightarrow> string \<Rightarrow> pyerror + cell list" where
  "getitem_col df col =
     (if col \<in> set (columns df) then Inr (map (\<lambda>(l, r). cell_at r col) (rows df))
      else Inl KeyError)"

text \<open>
  \<^verbatim>\<open>df.dropna(subset=...)\<close>: a label of the subset that is no column raises
  \<^verbatim>\<open>KeyError\<close>; otherwise the rows with a null in a column of the subset go.
\<close>

definition dropna :: "string list \<Rightarrow> dataframe \<Rightarrow> pyerror + dataframe" where
  "dropna cols df =
     (if list_ex (\<lambda>a. a \<notin> set (columns df)) cols then Inl KeyError
      else Inr (df\<lparr>rows := filter (\<lambda>(l, r). list_all (\<lambda>a. \<not> isnull (cell_at r a)) cols) (rows df)\<rparr>))"

text \<open>\<^verbatim>\<open>df.reset_index(drop=True)\<close>: the rows are relabelled 0, 1, 2, ...\<close>

definition reset_index :: "dataframe \<Rightarrow> dataframe" where
  "reset_index df = df\<lparr>rows := zip (map int [0..<length (rows df)]) (map snd (rows df))\<rparr>"

text \<open>\<^verbatim>\<open>series.isin(values)\<close> for a list of strings.\<close>

fun isin :: "string list \<Rightarrow> cell \<Rightarrow> bool" where
  "isin vals (CStr s) = (s \<in> set vals)"
| "isin vals c = False"

text \<open>\<^verbatim>\<open>df[mask].index\<close>: the labels of the rows where the mask holds.\<close>

definition masked_index :: "dataframe \<Rightarrow> bool list \<Rightarrow> int list" where
  "masked_index df msk = map (\<lambda>((l, r), b). l) (filter (\<lambda>((l, r), b). b) (zip (rows df) msk))"

text \<open>
  \<^verbatim>\<open>df.drop(labels)\<close>: every row that carries one of the labels goes; a label that
  no row carries raises \<^verbatim>\<open>KeyError\<close>.
\<close>

definition drop_labels :: "int list \<Rightarrow> dataframe \<Rightarrow> pyerror + dataframe" where
  "drop_labels ls df =
     (if list_ex (\<lambda>l. l \<notin> fst ` set (rows df)) ls then Inl KeyError
      else Inr (df\<lparr>rows := filter (\<lambda>(l, r). l \<notin> set ls) (rows df)\<rparr>))"

text \<open>\<^verbatim>\<open>df.isnull().sum(axis=1)\<close>: for each row, the number of null cells.\<close>

definition isnull_sum :: "dataframe \<Rightarrow> cell list" where
  "isnull_sum df =
     map (\<lambda>(l, r). CNum (real (length (filter (\<lambda>a. isnull (cell_at r a)) (columns df))))) (rows df)"

text \<open>\<^verbatim>\<open>df.assign(col=values)\<close>: the column is replaced where it is, or added last.\<close>

definition assign :: "string \<Rightarrow> cell list \<Rightarrow> dataframe \<Rightarrow> dataframe" where
  "assign col vals df =
     \<lparr>columns = (if col \<in> set (columns df) then columns df else columns df @ [col]),
      rows = map (\<lambda>((l, r), v). (l, setitem r col v)) (zip (rows df) vals)\<rparr>"

text \<open>\<^verbatim>\<open>df.drop(col, axis=1)\<close>.\<close>

definition drop_column :: "string \<Rightarrow> dataframe \<Rightarrow> pyerror + dataframe" where
  "drop_column col df =
     (if col \<in> set (columns df)
      then Inr \<lparr>columns = filter (\<lambda>c. c \<noteq> col) (columns df),
                rows = map (\<lambda>(l, r). (l, filter (\<lambda>(k, v). k \<noteq> col) r)) (rows df)\<rparr>
      else Inl KeyError)"

text \<open>
  \<^verbatim>\<open>df.sort_values(by=None, ascending=..., na_position="first")\<close>. pandas wraps a \<^verbatim>\<open>by\<close>
  that is no list into a one-element list and raises \<^verbatim>\<open>ValueError\<close> when \<^verbatim>\<open>ascending\<close>
  is a list of another length; with equal lengths it looks the label \<^verbatim>\<open>None\<close> up among
  the columns, which are strings, and raises \<^verbatim>\<open>KeyError\<close>.
\<close>

definition sort_values_by_None :: "bool list \<Rightarrow> dataframe \<Rightarrow> pyerror + dataframe" where
  "sort_values_by_None ascending df =
     (if length [None :: string option] \<noteq> length ascending then Inl ValueError else Inl KeyError)"

section \<open>The QueryRelaxer object\<close>

record query_relaxer =
  query :: query
  rfds_df :: dataframe
  data_set_df :: dataframe
  query_attributes :: "string list"

definition init :: "query \<Rightarrow> dataframe \<Rightarrow> dataframe \<Rightarrow> query_relaxer" where
  "init q rfds data =
     \<lparr>query = q, rfds_df = rfds, data_set_df = data, query_attributes = map fst q\<rparr>"

text \<open>
  A method returns its result, or the exception it raises, together with the object
  as the call leaves it.
\<close>

definition drop_query_na :: "query_relaxer \<Rightarrow> (pyerror + dataframe) \<times> query_relaxer" where
  "drop_query_na self =
     (case dropna (query_attributes self) (rfds_df self) of
        Inl e \<Rightarrow> (Inl e, self)
      | Inr df \<Rightarrow> (Inr (reset_index df), self\<lparr>rfds_df := reset_index df\<rparr>))"

definition drop_query_rhs :: "query_relaxer \<Rightarrow> (pyerror + dataframe) \<times> query_relaxer" where
  "drop_query_rhs self =
     (case getitem_col (rfds_df self) ''RHS'' of
        Inl e \<Rightarrow> (Inl e, self)
      | Inr rhs \<Rightarrow>
          (case drop_labels (masked_index (rfds_df self) (map (isin (query_attributes self)) rhs))
                  (rfds_df self) of
             Inl e \<Rightarrow> (Inl e, self)
           | Inr df \<Rightarrow> (Inr (reset_index df), self\<lparr>rfds_df := reset_index df\<rparr>)))"

text \<open>
  \<^verbatim>\<open>sort_nan_query_attributes\<close>. The assignment \<^verbatim>\<open>sorting_cols = self.query_attributes\<close>
  binds the list held by the object, so \<^verbatim>\<open>sorting_cols.extend([nan_count])\<close> appends
  the label to \<^verbatim>\<open>self.query_attributes\<close>; \<^verbatim>\<open>extend\<close> returns \<^verbatim>\<open>None\<close>, which is what
  \<^verbatim>\<open>sorting_cols\<close> is bound to afterwards and what \<^verbatim>\<open>sort_values\<close> receives as \<^verbatim>\<open>by\<close>.
\<close>

definition sort_nan_query_attributes :: "query_relaxer \<Rightarrow> (pyerror + dataframe) \<times> query_relaxer" where
  "sort_nan_query_attributes self =
     (let nan_count = ''NaNs'';
          self1 = self\<lparr>rfds_df := assign nan_count (isnull_sum (rfds_df self)) (rfds_df self)\<rparr>;
          ascending0 = [False];
          self2 = self1\<lparr>query_attributes := query_attributes self1 @ [nan_count]\<rparr>;
          ascending = ascending0 @ map (\<lambda>_. True) (query_attributes self2)
      in case sort_values_by_None ascending (rfds_df self2) of
           Inl e \<Rightarrow> (Inl e, self2)
         | Inr df0 \<Rightarrow>
             (case drop_column nan_count (reset_index df0) of
                Inl e \<Rightarrow> (Inl e, self2)
              | Inr df \<Rightarrow> (Inr df, self2\<lparr>rfds_df := df\<rparr>)))"

section \<open>The similarity matcher\<close>

text \<open>
  \<^verbatim>\<open>editdistance.eval\<close> is the Levenshtein distance of two sequences: the least number
  of insertions, deletions and substitutions of one element that turn one into the
  other. It is modelled by the recurrence that defines that distance.
\<close>

fun edit_distance :: "'a list \<Rightarrow> 'a list \<Rightarrow> nat" where
  "edit_distance [] ys = length ys"
| "edit_distance (x # xs) [] = Suc (length xs)"
| "edit_distance (x # xs) (y # ys) =
     min (Suc (edit_distance xs (y # ys)))
       (min (Suc (edit_distance (x # xs) ys))
            (edit_distance xs ys + (if x = y then 0 else 1)))"

text \<open>
  The mask \<^verbatim>\<open>data[col].apply(lambda word: int(editdistance.eval(source, word)) <= threshold)\<close>
  together with the selection \<^verbatim>\<open>data[mask][col].tolist()\<close>, cell by cell in row order. A
  cell that is no string (a float, NaN) has no length, and the distance raises
  \<^verbatim>\<open>TypeError\<close> on it.
\<close>

fun similar_in :: "string \<Rightarrow> real \<Rightarrow> cell list \<Rightarrow> pyerror + string list" where
  "similar_in source threshold [] = Inr []"
| "similar_in source threshold (CStr word # cs) =
     (case similar_in source threshold cs of
        Inl e \<Rightarrow> Inl e
      | Inr ws \<Rightarrow>
          Inr (if real (edit_distance source word) \<le> threshold then word # ws else ws))"
| "similar_in source threshold (c # cs) = Inl TypeError"

text \<open>
  \<^verbatim>\<open>similar_strings\<close>. The data set is optional in the caller (\<^verbatim>\<open>data_set = None\<close>);
  subscripting \<^verbatim>\<open>None\<close> raises \<^verbatim>\<open>TypeError\<close>.
\<close>

definition similar_strings ::
    "string \<Rightarrow> dataframe option \<Rightarrow> string \<Rightarrow> real \<Rightarrow> pyerror + string list" where
  "similar_strings source data col threshold =
     (case data of
        None \<Rightarrow> Inl TypeError
      | Some df \<Rightarrow>
          (case getitem_col df col of
             Inl e \<Rightarrow> Inl e
           | Inr words \<Rightarrow> similar_in source threshold words))"

section \<open>The query expander\<close>

text \<open>\<^verbatim>\<open>isinstance(val, int)\<close>: \<^verbatim>\<open>bool\<close> is a subclass of \<^verbatim>\<open>int\<close>.\<close>

fun isinstance_int :: "pyval \<Rightarrow> bool" where
  "isinstance_int (PInt i) = True"
| "isinstance_int (PBool b) = True"
| "isinstance_int v = False"

fun isinstance_str :: "pyval \<Rightarrow> bool" where
  "isinstance_str (PStr s) = True"
| "isinstance_str v = False"

text \<open>The number an instance of \<^verbatim>\<open>int\<close> stands for in arithmetic.\<close>

fun int_value :: "pyval \<Rightarrow> int" where
  "int_value (PInt i) = i"
| "int_value (PBool b) = (if b then 1 else 0)"
| "int_value v = 0"

text \<open>\<^verbatim>\<open>int(x)\<close> on a float truncates towards zero.\<close>

definition py_int :: "real \<Rightarrow> int" where
  "py_int x = (if 0 \<le> x then \<lfloor>x\<rfloor> else \<lceil>x\<rceil>)"

text \<open>\<^verbatim>\<open>list(range(a, b))\<close>.\<close>

definition py_range :: "int \<Rightarrow> int \<Rightarrow> int list" where
  "py_range a b = [a..b - 1]"

text \<open>
  The body of the loop of \<^verbatim>\<open>extend_query_ranges\<close> for one item \<^verbatim>\<open>(key, val)\<close>, on the
  query as it is at that moment. Comparing a string with \<^verbatim>\<open>0.0\<close> raises \<^verbatim>\<open>TypeError\<close>;
  \<^verbatim>\<open>nan > 0.0\<close> is false.
\<close>

definition extend_body ::
    "rfd \<Rightarrow> dataframe option \<Rightarrow> query \<Rightarrow> string \<Rightarrow> pyval \<Rightarrow> pyerror + query" where
  "extend_body rfd data_set q key val =
     (case map_of rfd key of
        None \<Rightarrow> Inr q
      | Some (CStr s) \<Rightarrow> Inl TypeError
      | Some CNaN \<Rightarrow> Inr q
      | Some (CNum threshold) \<Rightarrow>
          (if threshold > 0 then
            if isinstance_int val then
              Inr (setitem q key
                     (PList (map PInt (py_range (py_int (real_of_int (int_value val) - threshold))
                                                (py_int (real_of_int (int_value val) + threshold + 1))))))
            else if isinstance_str val then
              (case val of
                 PStr source \<Rightarrow>
                   (case similar_strings source data_set key threshold of
                      Inl e \<Rightarrow> Inl e
                    | Inr simil_string \<Rightarrow> Inr (setitem q key (PList (map PStr simil_string))))
               | _ \<Rightarrow> Inr q)
            else Inr q
          else Inr q))"

text \<open>
  The loop \<^verbatim>\<open>for key, val in query.items()\<close>. The body assigns only to the key it is
  visiting, so the keys and their order stay, and each item is read before it is
  written. An exception leaves the query as the items before it have made it.
\<close>

fun extend_loop ::
    "rfd \<Rightarrow> dataframe option \<Rightarrow> (string \<times> pyval) list \<Rightarrow> query \<Rightarrow> pyerror option \<times> query" where
  "extend_loop rfd data_set [] q = (None, q)"
| "extend_loop rfd data_set ((key, val) # items) q =
     (case extend_body rfd data_set q key val of
        Inl e \<Rightarrow> (Some e, q)
      | Inr q' \<Rightarrow> extend_loop rfd data_set items q')"

text \<open>
  \<^verbatim>\<open>extend_query_ranges\<close> assigns into the dictionary it is given and returns that same
  object. Query objects live in a store, addressed by reference; the function takes
  the reference of the query and returns a reference (or the exception) and the store.
\<close>

type_synonym ref = nat
type_synonym store = "ref \<Rightarrow> query"

definition extend_query_ranges ::
    "store \<Rightarrow> ref \<Rightarrow> rfd \<Rightarrow> dataframe option \<Rightarrow> (pyerror + ref) \<times> store" where
  "extend_query_ranges h query_ref rfd data_set =
     (case extend_loop rfd data_set (h query_ref) (h query_ref) of
        (None, q') \<Rightarrow> (Inr query_ref, h(query_ref := q'))
      | (Some e, q') \<Rightarrow> (Inl e, h(query_ref := q')))"

section \<open>The textual rendering of an RFD\<close>

text \<open>\<^verbatim>\<open>d[k]\<close> for reading.\<close>

definition getitem :: "('k \<times> 'v) list \<Rightarrow> 'k \<Rightarrow> pyerror + 'v" where
  "getitem d k = (case map_of d k of None \<Rightarrow> Inl KeyError | Some v \<Rightarrow> Inr v)"

text \<open>\<^verbatim>\<open>np.isnan\<close> is defined on numbers only.\<close>

fun isnan :: "cell \<Rightarrow> pyerror + bool" where
  "isnan CNaN = Inr True"
| "isnan (CNum x) = Inr False"
| "isnan (CStr s) = Inl TypeError"

text \<open>
  \<^verbatim>\<open>str(val)\<close>, and \<^verbatim>\<open>format\<close> with \<^verbatim>\<open>{}\<close>. How Python prints a finite float is a
  parameter, \<open>str_float\<close>.
\<close>

fun str_cell :: "(real \<Rightarrow> string) \<Rightarrow> cell \<Rightarrow> string" where
  "str_cell str_float CNaN = ''nan''"
| "str_cell str_float (CNum x) = str_float x"
| "str_cell str_float (CStr s) = s"

text \<open>
  One element of the list comprehension of \<^verbatim>\<open>rfd_to_string\<close>. The condition is
  evaluated from left to right and stops at the first disjunct that holds.
\<close>

definition lhs_element :: "(real \<Rightarrow> string) \<Rightarrow> rfd \<Rightarrow> string \<Rightarrow> cell \<Rightarrow> pyerror + string" where
  "lhs_element str_float rfd key val =
     (if key = ''RHS'' then Inr []
      else (case getitem rfd ''RHS'' of
              Inl e \<Rightarrow> Inl e
            | Inr rhs \<Rightarrow>
                (if CStr key = rhs then Inr []
                 else (case isnan val of
                         Inl e \<Rightarrow> Inl e
                       | Inr True \<Rightarrow> Inr []
                       | Inr False \<Rightarrow>
                           Inr (''('' @ key @ '' <= '' @ str_cell str_float val @ '') '')))))"

fun lhs_elements :: "(real \<Rightarrow> string) \<Rightarrow> rfd \<Rightarrow> (string \<times> cell) list \<Rightarrow> pyerror + string list" where
  "lhs_elements str_float rfd [] = Inr []"
| "lhs_elements str_float rfd ((key, val) # items) =
     (case lhs_element str_float rfd key val of
        Inl e \<Rightarrow> Inl e
      | Inr s \<Rightarrow>
          (case lhs_elements str_float rfd items of
             Inl e \<Rightarrow> Inl e
           | Inr ss \<Rightarrow> Inr (s # ss)))"

text \<open>
  \<^verbatim>\<open>rfd_to_string\<close>. A value under \<^verbatim>\<open>RHS\<close> that is no string is no key of the record,
  whose keys are strings, and the second lookup raises \<^verbatim>\<open>KeyError\<close>.
\<close>

definition rfd_to_string :: "(real \<Rightarrow> string) \<Rightarrow> rfd \<Rightarrow> pyerror + string" where
  "rfd_to_string str_float rfd =
     (case lhs_elements str_float rfd rfd of
        Inl e \<Rightarrow> Inl e
      | Inr ss \<Rightarrow>
          (case getitem rfd ''RHS'' of
             Inl e \<Rightarrow> Inl e
           | Inr (CStr rhs) \<Rightarrow>
               (case getitem rfd rhs of
                  Inl e \<Rightarrow> Inl e
                | Inr t \<Rightarrow>
                    Inr (concat ss @ ''---> ('' @ rhs @ '' <= '' @ str_cell str_float t @ '')''))
           | Inr _ \<Rightarrow> Inl KeyError))"

text \<open>
  The rendering as the specification words it: the constrained attributes that are
  not the dependent one, each as \<^verbatim>\<open>(attr <= threshold)\<close>, joined by spaces, followed by
  the arrow and the dependent attribute.
\<close>

fun join :: "string \<Rightarrow> string list \<Rightarrow> string" where
  "join sep [] = []"
| "join sep [s] = s"
| "join sep (s # t # ss) = s @ sep @ join sep (t # ss)"

definition spec_rendering :: "(real \<Rightarrow> string) \<Rightarrow> rfd \<Rightarrow> string \<Rightarrow> cell \<Rightarrow> string" where
  "spec_rendering str_float rfd rhs t =
     join '' ''
       (map (\<lambda>(key, val). ''('' @ key @ '' <= '' @ str_cell str_float val @ '')'')
          (filter (\<lambda>(key, val). key \<noteq> ''RHS'' \<and> key \<noteq> rhs \<and> val \<noteq> CNaN) rfd)
        @ [''---> ('' @ rhs @ '' <= '' @ str_cell str_float t @ '')''])"

section \<open>Example data\<close>

text \<open>A catalog of four RFDs over the attributes a, b and c, a data set and a query.\<close>

definition rfd1 :: rfd where
  "rfd1 = [(''RHS'', CStr ''c''), (''a'', CNum 1), (''b'', CNaN), (''c'', CNum 2)]"

definition rfd2 :: rfd where
  "rfd2 = [(''RHS'', CStr ''a''), (''a'', CNum 3), (''b'', CNum 1), (''c'', CNum 1)]"

definition rfd3 :: rfd where
  "rfd3 = [(''RHS'', CStr ''c''), (''a'', CNaN), (''b'', CNum 5), (''c'', CNum 0)]"

definition rfd4 :: rfd where
  "rfd4 = [(''RHS'', CStr ''b''), (''a'', CNum 2), (''b'', CNum 4), (''c'', CNaN)]"

definition example_catalog :: dataframe where
  "example_catalog =
     \<lparr>columns = [''RHS'', ''a'', ''b'', ''c''],
      rows = [(5, rfd1), (6, rfd2), (8, rfd3), (9, rfd4)]\<rparr>"

definition example_data :: dataframe where
  "example_data =
     \<lparr>columns = [''age'', ''city''],
      rows = [(0, [(''age'', CNum 30), (''city'', CStr ''Rome'')]),
              (1, [(''age'', CNum 31), (''city'', CStr ''Roma'')]),
              (2, [(''age'', CNum 31), (''city'', CStr ''Turin'')]),
              (3, [(''age'', CNum 35), (''city'', CStr ''Rome'')])]\<rparr>"

definition example_relaxer :: query_relaxer where
  "example_relaxer = init [(''a'', PInt 30)] example_catalog example_data"

definition unknown_relaxer :: query_relaxer where
  "unknown_relaxer = init [(''a'', PInt 30), (''zip'', PInt 84100)] example_catalog example_data"

text \<open>An RFD over age, zip, city and w with dependent attribute price, and a query.\<close>

definition example_rfd :: rfd where
  "example_rfd =
     [(''RHS'', CStr ''price''), (''age'', CNum 2), (''zip'', CNaN), (''city'', CNum 1),
      (''w'', CNum 1), (''price'', CNum 3)]"

definition example_query :: query where
  "example_query =
     [(''age'', PInt 30), (''city'', PStr ''Rome''), (''zip'', PInt 84100),
      (''w'', PFloat (5 / 2)), (''name'', PStr ''Ada'')]"

definition example_store :: store where
  "example_store = (\<lambda>r. [])(0 := example_query)"

definition example_str_float :: "real \<Rightarrow> string" where
  "example_str_float x =
     (if x = 1 then ''1.0'' else if x = 2 then ''2.0'' else if x = 3 then ''3.0'' else ''?'')"

section \<open>Properties of the ranker\<close>

text \<open>
  Claim C1 says that \<^verbatim>\<open>sort_nan_query_attributes\<close> returns the rows of the catalog ordered
  by decreasing number of NaN thresholds and then by increasing thresholds of the query
  attributes. The method never returns a catalog: for every object, whatever the catalog
  and the query, it raises \<^verbatim>\<open>ValueError\<close>, because \<^verbatim>\<open>sort_values\<close> is given \<^verbatim>\<open>by=None\<close>
  and a list \<^verbatim>\<open>ascending\<close> of at least two elements. It leaves the object with the label
  \<^verbatim>\<open>NaNs\<close> appended to its query attributes and with the count column in its catalog.
\<close>

theorem sort_nan_query_attributes_raises:
  "fst (sort_nan_query_attributes self) = Inl ValueError
   \<and> query_attributes (snd (sort_nan_query_attributes self)) = query_attributes self @ [''NaNs'']
   \<and> rfds_df (snd (sort_nan_query_attributes self))
       = assign ''NaNs'' (isnull_sum (rfds_df self)) (rfds_df self)"
  by (simp add: sort_nan_query_attributes_def sort_values_by_None_def Let_def)

section \<open>Properties of the candidate filter\<close>

lemma reset_index_rows: "map snd (rows (reset_index df)) = map snd (rows df)"
  by (simp add: reset_index_def)

lemma reset_index_columns: "columns (reset_index df) = columns df"
  by (simp add: reset_index_def)

lemma reset_index_idem: "reset_index (reset_index df) = reset_index df"
  by (simp add: reset_index_def)

lemma dropna_Inr:
  "dropna cols df = Inr df' \<Longrightarrow>
     df' = df\<lparr>rows := filter (\<lambda>(l, r). list_all (\<lambda>a. \<not> isnull (cell_at r a)) cols) (rows df)\<rparr>"
  by (auto simp: dropna_def split: if_splits)

text \<open>A frame that \<^verbatim>\<open>dropna\<close> has produced has nothing left to drop.\<close>

lemma dropna_fixed:
  assumes "dropna cols df = Inr df'"
  shows "dropna cols (reset_index df') = Inr (reset_index df')"
proof -
  let ?P = "\<lambda>(l :: int, r). list_all (\<lambda>a. \<not> isnull (cell_at r a)) cols"
  have ok: "\<not> list_ex (\<lambda>a. a \<notin> set (columns df)) cols"
    using assms by (auto simp: dropna_def split: if_splits)
  have rs: "rows df' = filter ?P (rows df)" and cs: "columns df' = columns df"
    using dropna_Inr [OF assms] by simp_all
  have "\<forall>x \<in> set (rows (reset_index df')). ?P x"
    unfolding reset_index_def using rs by (auto dest!: set_zip_rightD)
  then have "filter ?P (rows (reset_index df')) = rows (reset_index df')"
    by (intro filter_True)
  with ok cs show ?thesis
    by (simp add: dropna_def reset_index_columns)
qed

lemma drop_query_na_Inr:
  assumes "drop_query_na self = (Inr df, self')"
  shows "self' = self\<lparr>rfds_df := df\<rparr>"
    and "df = reset_index ((rfds_df self)\<lparr>rows :=
           filter (\<lambda>(l, r). list_all (\<lambda>a. \<not> isnull (cell_at r a)) (query_attributes self))
             (rows (rfds_df self))\<rparr>)"
  using assms
  by (auto simp: drop_query_na_def dest!: dropna_Inr split: sum.splits)

lemma drop_query_na_returns:
  assumes "set (query_attributes self) \<subseteq> set (columns (rfds_df self))"
  shows "\<exists>df. drop_query_na self = (Inr df, self\<lparr>rfds_df := df\<rparr>)"
  using assms by (auto simp: drop_query_na_def dropna_def list_ex_iff)

lemma masked_zip:
  "map (\<lambda>((l, r), b). l) (filter (\<lambda>((l, r), b). b) (zip rs (map g rs)))
     = map fst (filter g rs)"
  by (induction rs) auto

lemma masked_index_isin:
  "masked_index df (map f (map (\<lambda>(l, r). cell_at r c) (rows df)))
     = map fst (filter (\<lambda>(l, r). f (cell_at r c)) (rows df))"
proof -
  have "map f (map (\<lambda>(l, r). cell_at r c) (rows df)) = map (\<lambda>(l, r). f (cell_at r c)) (rows df)"
    by (simp add: case_prod_unfold)
  then show ?thesis
    unfolding masked_index_def by (simp only: masked_zip)
qed

text \<open>The labels handed to \<^verbatim>\<open>drop\<close> are labels of the frame itself, so it does not raise.\<close>

lemma drop_own_labels:
  "drop_labels (map fst (filter g (rows df))) df
     = Inr (df\<lparr>rows := filter (\<lambda>(l, r). l \<notin> fst ` set (filter g (rows df))) (rows df)\<rparr>)"
  by (auto simp: drop_labels_def list_ex_iff)

lemma drop_query_rhs_eval:
  assumes "''RHS'' \<in> set (columns (rfds_df self))"
  shows "drop_query_rhs self =
     (Inr (reset_index ((rfds_df self)\<lparr>rows :=
           filter (\<lambda>(l, r). l \<notin> fst ` set (filter (\<lambda>(l, r). isin (query_attributes self) (cell_at r ''RHS'')) (rows (rfds_df self))))
             (rows (rfds_df self))\<rparr>)),
      self\<lparr>rfds_df := reset_index ((rfds_df self)\<lparr>rows :=
           filter (\<lambda>(l, r). l \<notin> fst ` set (filter (\<lambda>(l, r). isin (query_attributes self) (cell_at r ''RHS'')) (rows (rfds_df self))))
             (rows (rfds_df self))\<rparr>)\<rparr>)"
  using assms
  by (simp add: drop_query_rhs_def getitem_col_def masked_index_isin drop_own_labels del: map_map)

lemma drop_query_rhs_raises:
  "''RHS'' \<notin> set (columns (rfds_df self)) \<Longrightarrow> drop_query_rhs self = (Inl KeyError, self)"
  by (simp add: drop_query_rhs_def getitem_col_def)

lemma drop_query_rhs_Inr:
  assumes "drop_query_rhs self = (Inr df, self')"
  shows "self' = self\<lparr>rfds_df := df\<rparr>"
    and "''RHS'' \<in> set (columns (rfds_df self))"
    and "df = reset_index ((rfds_df self)\<lparr>rows :=
           filter (\<lambda>(l, r). l \<notin> fst ` set (filter (\<lambda>(l, r). isin (query_attributes self) (cell_at r ''RHS'')) (rows (rfds_df self))))
             (rows (rfds_df self))\<rparr>)"
proof -
  show c: "''RHS'' \<in> set (columns (rfds_df self))"
    using assms drop_query_rhs_raises [of self]
    by (cases "''RHS'' \<in> set (columns (rfds_df self))") simp_all
  from assms drop_query_rhs_eval [OF c]
  show "self' = self\<lparr>rfds_df := df\<rparr>"
    and "df = reset_index ((rfds_df self)\<lparr>rows :=
           filter (\<lambda>(l, r). l \<notin> fst ` set (filter (\<lambda>(l, r). isin (query_attributes self) (cell_at r ''RHS'')) (rows (rfds_df self))))
             (rows (rfds_df self))\<rparr>)"
    by auto
qed

text \<open>A row that survives a filter is a row of the catalog that passes its test.\<close>

lemma rhs_survivor:
  assumes "drop_query_rhs self = (Inr df, self')" and "(l, r) \<in> set (rows df)"
  shows "\<not> isin (query_attributes self) (cell_at r ''RHS'')"
    and "r \<in> snd ` set (rows (rfds_df self))"
proof -
  let ?m = "\<lambda>(l :: int, r). isin (query_attributes self) (cell_at r ''RHS'')"
  from assms have "r \<in> snd ` set (filter (\<lambda>(l, r). l \<notin> fst ` set (filter ?m (rows (rfds_df self)))) (rows (rfds_df self)))"
    unfolding drop_query_rhs_Inr(3) [OF assms(1)] reset_index_def
    by (auto dest!: set_zip_rightD)
  then obtain l' where in_rows: "(l', r) \<in> set (rows (rfds_df self))"
    and out: "l' \<notin> fst ` set (filter ?m (rows (rfds_df self)))"
    by auto
  from in_rows show "r \<in> snd ` set (rows (rfds_df self))" by force
  show "\<not> isin (query_attributes self) (cell_at r ''RHS'')"
  proof
    assume "isin (query_attributes self) (cell_at r ''RHS'')"
    with in_rows have "(l', r) \<in> set (filter ?m (rows (rfds_df self)))" by simp
    then have "l' \<in> fst ` set (filter ?m (rows (rfds_df self)))" by force
    with out show False by contradiction
  qed
qed

lemma na_survivor:
  assumes "drop_query_na self = (Inr df, self')" and "(l, r) \<in> set (rows df)"
  shows "list_all (\<lambda>a. \<not> isnull (cell_at r a)) (query_attributes self)"
    and "r \<in> snd ` set (rows (rfds_df self))"
  using assms(2) unfolding drop_query_na_Inr(2) [OF assms(1)] reset_index_def
  by (auto dest!: set_zip_rightD)

lemma isin_CStr: "isin vals c \<longleftrightarrow> (\<exists>s \<in> set vals. c = CStr s)"
  by (cases c) auto

text \<open>
  Claim C2: after \<^verbatim>\<open>drop_query_na\<close> and then \<^verbatim>\<open>drop_query_rhs\<close> have returned, the catalog
  the object holds is the one returned, and in it no row has a NaN threshold under a
  query attribute and no row has a query attribute as its RHS.
\<close>

theorem filtering_postcondition:
  assumes "drop_query_na self = (Inr df1, self1)"
    and "drop_query_rhs self1 = (Inr df2, self2)"
  shows "rfds_df self2 = df2 \<and>
         (\<forall>(l, r) \<in> set (rows df2). \<forall>a \<in> set (query_attributes self).
             cell_at r a \<noteq> CNaN \<and> cell_at r ''RHS'' \<noteq> CStr a)"
proof -
  have s1: "self1 = self\<lparr>rfds_df := df1\<rparr>" by (rule drop_query_na_Inr(1) [OF assms(1)])
  have s2: "self2 = self1\<lparr>rfds_df := df2\<rparr>" by (rule drop_query_rhs_Inr(1) [OF assms(2)])
  have "cell_at r a \<noteq> CNaN \<and> cell_at r ''RHS'' \<noteq> CStr a"
    if "(l, r) \<in> set (rows df2)" and "a \<in> set (query_attributes self)" for l r a
  proof -
    from rhs_survivor [OF assms(2) that(1)]
    have no: "\<not> isin (query_attributes self) (cell_at r ''RHS'')"
      and "r \<in> snd ` set (rows df1)"
      using s1 by simp_all
    then obtain l' where "(l', r) \<in> set (rows df1)" by auto
    from na_survivor(1) [OF assms(1) this] that(2)
    have "cell_at r a \<noteq> CNaN" by (simp add: list_all_iff isnull_def)
    moreover from no that(2) have "cell_at r ''RHS'' \<noteq> CStr a" by (auto simp: isin_CStr)
    ultimately show ?thesis by simp
  qed
  with s2 show ?thesis by auto
qed

theorem filtering_postcondition_witness:
  "drop_query_na example_relaxer
     = (Inr \<lparr>columns = [''RHS'', ''a'', ''b'', ''c''], rows = [(0, rfd1), (1, rfd2), (2, rfd4)]\<rparr>,
        example_relaxer\<lparr>rfds_df :=
          \<lparr>columns = [''RHS'', ''a'', ''b'', ''c''], rows = [(0, rfd1), (1, rfd2), (2, rfd4)]\<rparr>\<rparr>)
   \<and> drop_query_rhs (example_relaxer\<lparr>rfds_df :=
          \<lparr>columns = [''RHS'', ''a'', ''b'', ''c''], rows = [(0, rfd1), (1, rfd2), (2, rfd4)]\<rparr>\<rparr>)
     = (Inr \<lparr>columns = [''RHS'', ''a'', ''b'', ''c''], rows = [(0, rfd1), (1, rfd4)]\<rparr>,
        example_relaxer\<lparr>rfds_df :=
          \<lparr>columns = [''RHS'', ''a'', ''b'', ''c''], rows = [(0, rfd1), (1, rfd4)]\<rparr>\<rparr>)
   \<and> query_attributes example_relaxer = [''a'']
   \<and> cell_at rfd1 ''a'' \<noteq> CNaN \<and> cell_at rfd1 ''RHS'' \<noteq> CStr ''a''
   \<and> cell_at rfd4 ''a'' \<noteq> CNaN \<and> cell_at rfd4 ''RHS'' \<noteq> CStr ''a''"
proof -
  let ?c1 = "\<lparr>columns = [''RHS'', ''a'', ''b'', ''c''], rows = [(0, rfd1), (1, rfd2), (2, rfd4)]\<rparr>"
  let ?c2 = "\<lparr>columns = [''RHS'', ''a'', ''b'', ''c''], rows = [(0, rfd1), (1, rfd4)]\<rparr>"
  have h1: "drop_query_na example_relaxer = (Inr ?c1, example_relaxer\<lparr>rfds_df := ?c1\<rparr>)"
    by (simp add: drop_query_na_def example_relaxer_def init_def example_catalog_def dropna_def
        reset_index_def cell_at_def isnull_def rfd1_def rfd2_def rfd3_def rfd4_def)
  have h2: "drop_query_rhs (example_relaxer\<lparr>rfds_df := ?c1\<rparr>)
              = (Inr ?c2, example_relaxer\<lparr>rfds_df := ?c2\<rparr>)"
    by (simp add: drop_query_rhs_def example_relaxer_def init_def getitem_col_def drop_labels_def
        masked_index_def reset_index_def cell_at_def rfd1_def rfd2_def rfd4_def)
  have qa: "query_attributes example_relaxer = [''a'']"
    by (simp add: example_relaxer_def init_def)
  from filtering_postcondition [OF h1 h2] h1 h2 qa show ?thesis
    by simp
qed

text \<open>The two filters can only fail on the schema of the catalog.\<close>

lemma filtering_returns:
  assumes "set (query_attributes self) \<subseteq> set (columns (rfds_df self))"
    and "''RHS'' \<in> set (columns (rfds_df self))"
  shows "\<exists>df1 df2. drop_query_na self = (Inr df1, self\<lparr>rfds_df := df1\<rparr>)
           \<and> drop_query_rhs (self\<lparr>rfds_df := df1\<rparr>) = (Inr df2, self\<lparr>rfds_df := df2\<rparr>)"
proof -
  from drop_query_na_returns [OF assms(1)]
  obtain df1 where d1: "drop_query_na self = (Inr df1, self\<lparr>rfds_df := df1\<rparr>)" by blast
  have "columns df1 = columns (rfds_df self)"
    unfolding drop_query_na_Inr(2) [OF d1] by (simp add: reset_index_columns)
  with assms(2) have "''RHS'' \<in> set (columns (rfds_df (self\<lparr>rfds_df := df1\<rparr>)))" by simp
  from drop_query_rhs_eval [OF this] d1 show ?thesis by auto
qed

lemma drop_query_na_idem:
  assumes "drop_query_na self = (Inr df, self')"
  shows "drop_query_na self' = (Inr df, self')"
proof -
  from assms obtain df' where d: "dropna (query_attributes self) (rfds_df self) = Inr df'"
    and df: "df = reset_index df'" and s: "self' = self\<lparr>rfds_df := df\<rparr>"
    by (auto simp: drop_query_na_def split: sum.splits)
  have "dropna (query_attributes self') (rfds_df self') = Inr df"
    using dropna_fixed [OF d] df s by simp
  then show ?thesis
    using df s by (simp add: drop_query_na_def reset_index_idem)
qed

lemma drop_query_rhs_idem:
  assumes "drop_query_rhs self = (Inr df, self')"
  shows "drop_query_rhs self' = (Inr df, self')"
proof -
  let ?m = "\<lambda>(l :: int, r). isin (query_attributes self) (cell_at r ''RHS'')"
  have s: "self' = self\<lparr>rfds_df := df\<rparr>" by (rule drop_query_rhs_Inr(1) [OF assms])
  obtain df' where df: "df = reset_index df'"
    using drop_query_rhs_Inr(3) [OF assms] by blast
  have cols: "''RHS'' \<in> set (columns (rfds_df self'))"
    using drop_query_rhs_Inr(2,3) [OF assms] s by (simp add: reset_index_columns)
  have "\<forall>x \<in> set (rows df). \<not> ?m x"
    using rhs_survivor(1) [OF assms] by auto
  then have none: "filter ?m (rows df) = []"
    by (simp add: filter_empty_conv)
  have "reset_index (df\<lparr>rows := rows df\<rparr>) = df"
    using df by (simp add: reset_index_idem)
  with drop_query_rhs_eval [OF cols] s none show ?thesis
    by simp
qed

text \<open>
  Claim C6: each of \<^verbatim>\<open>drop_query_na\<close> and \<^verbatim>\<open>drop_query_rhs\<close> returns rows of the catalog in
  the order they had there (the rows returned are a subsequence of the rows given), and
  applied again to the object it has left, returns the same catalog and leaves the same
  object.
\<close>

theorem filters_keep_order_and_are_idempotent:
  "(drop_query_na self = (Inr df_na, self_na) \<longrightarrow>
      subseq (map snd (rows df_na)) (map snd (rows (rfds_df self)))
      \<and> drop_query_na self_na = (Inr df_na, self_na))
   \<and> (drop_query_rhs self = (Inr df_rhs, self_rhs) \<longrightarrow>
      subseq (map snd (rows df_rhs)) (map snd (rows (rfds_df self)))
      \<and> drop_query_rhs self_rhs = (Inr df_rhs, self_rhs))"
proof (intro conjI impI)
  assume a: "drop_query_na self = (Inr df_na, self_na)"
  show "subseq (map snd (rows df_na)) (map snd (rows (rfds_df self)))"
    unfolding drop_query_na_Inr(2) [OF a]
    by (simp add: reset_index_rows subseq_map)
  show "drop_query_na self_na = (Inr df_na, self_na)" by (rule drop_query_na_idem [OF a])
next
  assume a: "drop_query_rhs self = (Inr df_rhs, self_rhs)"
  show "subseq (map snd (rows df_rhs)) (map snd (rows (rfds_df self)))"
    unfolding drop_query_rhs_Inr(3) [OF a]
    by (simp add: reset_index_rows subseq_map)
  show "drop_query_rhs self_rhs = (Inr df_rhs, self_rhs)" by (rule drop_query_rhs_idem [OF a])
qed

theorem filters_keep_order_and_are_idempotent_witness:
  "drop_query_na example_relaxer
     = (Inr \<lparr>columns = [''RHS'', ''a'', ''b'', ''c''], rows = [(0, rfd1), (1, rfd2), (2, rfd4)]\<rparr>,
        example_relaxer\<lparr>rfds_df :=
          \<lparr>columns = [''RHS'', ''a'', ''b'', ''c''], rows = [(0, rfd1), (1, rfd2), (2, rfd4)]\<rparr>\<rparr>)
   \<and> subseq [rfd1, rfd2, rfd4] [rfd1, rfd2, rfd3, rfd4]
   \<and> drop_query_na (example_relaxer\<lparr>rfds_df :=
          \<lparr>columns = [''RHS'', ''a'', ''b'', ''c''], rows = [(0, rfd1), (1, rfd2), (2, rfd4)]\<rparr>\<rparr>)
     = (Inr \<lparr>columns = [''RHS'', ''a'', ''b'', ''c''], rows = [(0, rfd1), (1, rfd2), (2, rfd4)]\<rparr>,
        example_relaxer\<lparr>rfds_df :=
          \<lparr>columns = [''RHS'', ''a'', ''b'', ''c''], rows = [(0, rfd1), (1, rfd2), (2, rfd4)]\<rparr>\<rparr>)
   \<and> drop_query_rhs example_relaxer
     = (Inr \<lparr>columns = [''RHS'', ''a'', ''b'', ''c''], rows = [(0, rfd1), (1, rfd3), (2, rfd4)]\<rparr>,
        example_relaxer\<lparr>rfds_df :=
          \<lparr>columns = [''RHS'', ''a'', ''b'', ''c''], rows = [(0, rfd1), (1, rfd3), (2, rfd4)]\<rparr>\<rparr>)
   \<and> subseq [rfd1, rfd3, rfd4] [rfd1, rfd2, rfd3, rfd4]
   \<and> drop_query_rhs (example_relaxer\<lparr>rfds_df :=
          \<lparr>columns = [''RHS'', ''a'', ''b'', ''c''], rows = [(0, rfd1), (1, rfd3), (2, rfd4)]\<rparr>\<rparr>)
     = (Inr \<lparr>columns = [''RHS'', ''a'', ''b'', ''c''], rows = [(0, rfd1), (1, rfd3), (2, rfd4)]\<rparr>,
        example_relaxer\<lparr>rfds_df :=
          \<lparr>columns = [''RHS'', ''a'', ''b'', ''c''], rows = [(0, rfd1), (1, rfd3), (2, rfd4)]\<rparr>\<rparr>)"
proof -
  let ?c1 = "\<lparr>columns = [''RHS'', ''a'', ''b'', ''c''], rows = [(0, rfd1), (1, rfd2), (2, rfd4)]\<rparr>"
  let ?c3 = "\<lparr>columns = [''RHS'', ''a'', ''b'', ''c''], rows = [(0, rfd1), (1, rfd3), (2, rfd4)]\<rparr>"
  have h1: "drop_query_na example_relaxer = (Inr ?c1, example_relaxer\<lparr>rfds_df := ?c1\<rparr>)"
    by (simp add: drop_query_na_def example_relaxer_def init_def example_catalog_def dropna_def
        reset_index_def cell_at_def isnull_def rfd1_def rfd2_def rfd3_def rfd4_def)
  have h3: "drop_query_rhs example_relaxer = (Inr ?c3, example_relaxer\<lparr>rfds_df := ?c3\<rparr>)"
    by (simp add: drop_query_rhs_def example_relaxer_def init_def example_catalog_def
        getitem_col_def drop_labels_def masked_index_def reset_index_def cell_at_def
        rfd1_def rfd2_def rfd3_def rfd4_def)
  have r: "map snd (rows (rfds_df example_relaxer)) = [rfd1, rfd2, rfd3, rfd4]"
    by (simp add: example_relaxer_def init_def example_catalog_def)
  from filters_keep_order_and_are_idempotent
         [of example_relaxer ?c1 "example_relaxer\<lparr>rfds_df := ?c1\<rparr>"
             ?c3 "example_relaxer\<lparr>rfds_df := ?c3\<rparr>"] h1 h3 r
  show ?thesis by simp
qed

text \<open>
  Claim C8 says that with a query attribute that is no column of the catalog the
  filtering step returns an empty catalog without raising. It raises: with the query
  attribute \<^verbatim>\<open>zip\<close>, which the example catalog does not have, \<^verbatim>\<open>drop_query_na\<close> ends in
  \<^verbatim>\<open>KeyError\<close> and returns no catalog.
\<close>

theorem unknown_attribute_counterexample:
  "''zip'' \<in> set (query_attributes unknown_relaxer)
   \<and> ''zip'' \<notin> set (columns (rfds_df unknown_relaxer))
   \<and> fst (drop_query_na unknown_relaxer) = Inl KeyError"
  by (simp add: unknown_relaxer_def init_def example_catalog_def drop_query_na_def dropna_def)

text \<open>
  Claim C8 as amended: when some query attribute is no column of the catalog,
  \<^verbatim>\<open>drop_query_na\<close> raises \<^verbatim>\<open>KeyError\<close>, returns no catalog and leaves the object, with
  its catalog, as it was.
\<close>

theorem drop_query_na_unknown_attribute:
  assumes "\<not> set (query_attributes self) \<subseteq> set (columns (rfds_df self))"
  shows "drop_query_na self = (Inl KeyError, self)"
  using assms by (auto simp: drop_query_na_def dropna_def list_ex_iff)

theorem drop_query_na_unknown_attribute_witness:
  "\<not> set (query_attributes (init [(''city'', PStr ''Rome'')] example_catalog example_data))
       \<subseteq> set (columns (rfds_df (init [(''city'', PStr ''Rome'')] example_catalog example_data)))
   \<and> drop_query_na (init [(''city'', PStr ''Rome'')] example_catalog example_data)
       = (Inl KeyError, init [(''city'', PStr ''Rome'')] example_catalog example_data)"
proof -
  have h: "\<not> set (query_attributes (init [(''city'', PStr ''Rome'')] example_catalog example_data))
       \<subseteq> set (columns (rfds_df (init [(''city'', PStr ''Rome'')] example_catalog example_data)))"
    by (simp add: init_def example_catalog_def)
  from drop_query_na_unknown_attribute [OF h] h show ?thesis by blast
qed

section \<open>Properties of the similarity matcher\<close>





section \<open>Properties of the query expander\<close>

lemma map_of_setitem: "map_of (setitem d k v) = (map_of d)(k \<mapsto> v)"
  by (induction d) (auto simp: fun_eq_iff)

lemma keys_setitem: "k \<in> fst ` set d \<Longrightarrow> map fst (setitem d k v) = map fst d"
  by (induction d) force+

text \<open>The body of the loop returns the query as it is, or with a list under the key.\<close>

lemma extend_body_cases:
  assumes "extend_body rfd data_set q key val = Inr q'"
  shows "q' = q \<or> (\<exists>vs. q' = setitem q key (PList vs))"
  using assms
  by (auto simp: extend_body_def split: option.splits cell.splits if_splits pyval.splits sum.splits)

lemma extend_body_keys:
  assumes "extend_body rfd data_set q key val = Inr q'" and "key \<in> fst ` set q"
  shows "map fst q' = map fst q"
  using extend_body_cases [OF assms(1)] keys_setitem [OF assms(2)] by auto

lemma extend_body_other:
  assumes "extend_body rfd data_set q key val = Inr q'" and "k \<noteq> key"
  shows "map_of q' k = map_of q k"
  using extend_body_cases [OF assms(1)] assms(2) by (auto simp: map_of_setitem)

lemma extend_body_outside:
  assumes "map_of rfd key = None"
  shows "extend_body rfd data_set q key val = Inr q"
  using assms by (simp add: extend_body_def)

lemma extend_body_value:
  assumes "extend_body rfd data_set q key val = Inr q'"
  shows "map_of q' k = map_of q k \<or> (\<exists>vs. map_of q' k = Some (PList vs))"
  using extend_body_cases [OF assms] by (auto simp: map_of_setitem)

lemma extend_loop_keys:
  assumes "extend_loop rfd data_set items q = (e, q')" and "fst ` set items \<subseteq> fst ` set q"
  shows "map fst q' = map fst q"
  using assms
proof (induction items arbitrary: q)
  case Nil
  then show ?case by simp
next
  case (Cons item items)
  obtain key val where item: "item = (key, val)" by (cases item)
  show ?case
  proof (cases "extend_body rfd data_set q key val")
    case (Inl err)
    with Cons.prems item show ?thesis by simp
  next
    case (Inr q1)
    have k: "map fst q1 = map fst q"
      using extend_body_keys [OF Inr] Cons.prems(2) item by simp
    then have "fst ` set q1 = fst ` set q" by (metis set_map)
    with Cons.prems item Inr have "map fst q' = map fst q1"
      by (intro Cons.IH) simp_all
    with k show ?thesis by simp
  qed
qed

lemma extend_loop_unvisited:
  assumes "extend_loop rfd data_set items q = (e, q')" and "k \<notin> fst ` set items"
  shows "map_of q' k = map_of q k"
  using assms
proof (induction items arbitrary: q)
  case Nil
  then show ?case by simp
next
  case (Cons item items)
  obtain key val where item: "item = (key, val)" by (cases item)
  show ?case
  proof (cases "extend_body rfd data_set q key val")
    case (Inl err)
    with Cons.prems item show ?thesis by simp
  next
    case (Inr q1)
    from Cons.prems(2) item have ne: "k \<noteq> key" and rest: "k \<notin> fst ` set items" by auto
    from Cons.prems(1) item Inr have "map_of q' k = map_of q1 k"
      by (intro Cons.IH [OF _ rest]) simp
    with extend_body_other [OF Inr ne] show ?thesis by simp
  qed
qed

lemma extend_loop_outside:
  assumes "extend_loop rfd data_set items q = (e, q')" and "map_of rfd k = None"
  shows "map_of q' k = map_of q k"
  using assms
proof (induction items arbitrary: q)
  case Nil
  then show ?case by simp
next
  case (Cons item items)
  obtain key val where item: "item = (key, val)" by (cases item)
  show ?case
  proof (cases "extend_body rfd data_set q key val")
    case (Inl err)
    with Cons.prems item show ?thesis by simp
  next
    case (Inr q1)
    have "map_of q1 k = map_of q k"
    proof (cases "k = key")
      case True
      with Cons.prems(2) Inr extend_body_outside [of rfd key data_set q val] show ?thesis by simp
    next
      case False
      then show ?thesis by (rule extend_body_other [OF Inr])
    qed
    moreover from Cons.prems item Inr have "map_of q' k = map_of q1 k"
      by (intro Cons.IH) simp_all
    ultimately show ?thesis by simp
  qed
qed

lemma extend_loop_value:
  assumes "extend_loop rfd data_set items q = (e, q')"
  shows "map_of q' k = map_of q k \<or> (\<exists>vs. map_of q' k = Some (PList vs))"
  using assms
proof (induction items arbitrary: q)
  case Nil
  then show ?case by simp
next
  case (Cons item items)
  obtain key val where item: "item = (key, val)" by (cases item)
  show ?case
  proof (cases "extend_body rfd data_set q key val")
    case (Inl err)
    with Cons.prems item show ?thesis by simp
  next
    case (Inr q1)
    from Cons.prems item Inr
    have "map_of q' k = map_of q1 k \<or> (\<exists>vs. map_of q' k = Some (PList vs))"
      by (intro Cons.IH) simp
    with extend_body_value [OF Inr, of k] show ?thesis by auto
  qed
qed

text \<open>
  However the loop ends, what it leaves under a key among its items is what was there
  (the loop stopped before that item), or what the body put there when it visited it.
\<close>

lemma extend_loop_visited:
  assumes "extend_loop rfd data_set items q = (e, q')"
    and "distinct (map fst items)" and "(k, v) \<in> set items"
  shows "map_of q' k = map_of q k
         \<or> (\<exists>q1 q2. map_of q1 k = map_of q k \<and> extend_body rfd data_set q1 k v = Inr q2
                      \<and> map_of q' k = map_of q2 k)"
  using assms
proof (induction items arbitrary: q)
  case Nil
  then show ?case by simp
next
  case (Cons item items)
  obtain key val where item: "item = (key, val)" by (cases item)
  show ?case
  proof (cases "extend_body rfd data_set q key val")
    case (Inl err)
    with Cons.prems item show ?thesis by simp
  next
    case (Inr q1)
    from Cons.prems(1) item Inr have loop: "extend_loop rfd data_set items q1 = (e, q')" by simp
    show ?thesis
    proof (cases "(k, v) = (key, val)")
      case True
      with Cons.prems(2) item have "k \<notin> fst ` set items" by auto
      from extend_loop_unvisited [OF loop this] Inr True show ?thesis by blast
    next
      case False
      with Cons.prems(3) item have mem: "(k, v) \<in> set items" by auto
      with Cons.prems(2) item have ne: "k \<noteq> key" by force
      from Cons.prems(2) have "distinct (map fst items)" by simp
      from Cons.IH [OF loop this mem] extend_body_other [OF Inr ne]
      show ?thesis by simp
    qed
  qed
qed


lemma extend_query_ranges_store:
  "snd (extend_query_ranges h a rfd data_set) =
     h(a := snd (extend_loop rfd data_set (h a) (h a)))"
  by (simp add: extend_query_ranges_def split: prod.splits option.splits)

lemma extend_query_ranges_result:
  "fst (extend_query_ranges h a rfd data_set) =
     (case fst (extend_loop rfd data_set (h a) (h a)) of None \<Rightarrow> Inr a | Some e \<Rightarrow> Inl e)"
  by (simp add: extend_query_ranges_def split: prod.splits option.splits)

text \<open>The example call, evaluated: it returns the reference it was given.\<close>

lemma example_call:
  "extend_query_ranges example_store 0 example_rfd (Some example_data)
     = (Inr 0,
        example_store(0 :=
          [(''age'', PList [PInt 28, PInt 29, PInt 30, PInt 31, PInt 32]),
           (''city'', PList [PStr ''Rome'', PStr ''Roma'', PStr ''Rome'']),
           (''zip'', PInt 84100), (''w'', PFloat (5 / 2)), (''name'', PStr ''Ada'')]))"
  by (simp add: extend_query_ranges_def example_store_def example_query_def example_rfd_def
      example_data_def extend_body_def py_int_def py_range_def similar_strings_def
      getitem_col_def cell_at_def)





lemma extend_body_noop:
  assumes "map_of rfd k = None \<or> map_of rfd k = Some CNaN
           \<or> (\<exists>t. map_of rfd k = Some (CNum t) \<and> t \<le> 0)"
  shows "extend_body rfd data_set q k v = Inr q"
  using assms by (auto simp: extend_body_def)


text \<open>
  An item on which the body, when it returns, returns the query as it is, has its
  value in the query after the call, however the call ends.
\<close>

lemma unchanged_value:
  assumes "distinct (map fst (h a))" and "(k, v) \<in> set (h a)"
    and "\<forall>q1 q2. extend_body rfd data_set q1 k v = Inr q2 \<longrightarrow> q2 = q1"
  shows "map_of (snd (extend_query_ranges h a rfd data_set) a) k = Some v"
proof -
  obtain e q' where loop: "extend_loop rfd data_set (h a) (h a) = (e, q')"
    by (cases "extend_loop rfd data_set (h a) (h a)")
  from extend_loop_visited [OF loop assms(1,2)] assms(3)
  have "map_of q' k = map_of (h a) k" by metis
  moreover have "map_of (h a) k = Some v"
    using assms(1,2) by simp
  ultimately show ?thesis
    using loop by (simp add: extend_query_ranges_store)
qed

text \<open>
  Claim C5: when the RFD has no threshold for a query attribute (the key is missing or
  its value is NaN) or has a threshold that is not positive, the body of the loop
  returns the query as it is and does not raise, and after the call, however it ends,
  the attribute holds the scalar it held before.
\<close>

theorem no_positive_threshold_no_change:
  assumes "distinct (map fst (h a))" and "(k, v) \<in> set (h a)"
    and "map_of rfd k = None \<or> map_of rfd k = Some CNaN
         \<or> (\<exists>t. map_of rfd k = Some (CNum t) \<and> t \<le> 0)"
  shows "extend_body rfd data_set q k v = Inr q
       \<and> map_of (snd (extend_query_ranges h a rfd data_set) a) k = Some v"
proof
  show "extend_body rfd data_set q k v = Inr q"
    by (rule extend_body_noop [OF assms(3)])
  show "map_of (snd (extend_query_ranges h a rfd data_set) a) k = Some v"
    using extend_body_noop [OF assms(3), of data_set _ v] assms(1,2)
    by (intro unchanged_value [of h a k v rfd data_set]) simp_all
qed

theorem no_positive_threshold_no_change_witness:
  "distinct (map fst (example_store 0)) \<and> (''zip'', PInt 84100) \<in> set (example_store 0)
   \<and> map_of example_rfd ''zip'' = Some CNaN
   \<and> extend_body example_rfd (Some example_data) (example_store 0) ''zip'' (PInt 84100)
       = Inr (example_store 0)
   \<and> map_of (snd (extend_query_ranges example_store 0 example_rfd (Some example_data)) 0) ''zip''
       = Some (PInt 84100)"
proof -
  have h1: "distinct (map fst (example_store 0))"
    by (simp add: example_store_def example_query_def)
  have h2: "(''zip'', PInt 84100) \<in> set (example_store 0)"
    by (simp add: example_store_def example_query_def)
  have h3: "map_of example_rfd ''zip'' = Some CNaN"
    by (simp add: example_rfd_def)
  have h3': "map_of example_rfd ''zip'' = None \<or> map_of example_rfd ''zip'' = Some CNaN
         \<or> (\<exists>t. map_of example_rfd ''zip'' = Some (CNum t) \<and> t \<le> 0)"
    using h3 by simp
  from no_positive_threshold_no_change
         [where h = example_store and a = 0 and k = "''zip''" and v = "PInt 84100"
            and rfd = example_rfd and data_set = "Some example_data" and q = "example_store 0",
          OF h1 h2 h3'] h1 h2 h3
  show ?thesis by blast
qed



text \<open>
  Claim C7 says that \<^verbatim>\<open>extend_query_ranges\<close> produces a new query and leaves the query
  it was given unchanged. It returns the reference it was given, and the query under
  that reference has changed: in the example the attribute \<^verbatim>\<open>age\<close> holds 30 before the
  call and a list after it.
\<close>

theorem new_query_counterexample:
  "fst (extend_query_ranges example_store 0 example_rfd (Some example_data)) = Inr 0
   \<and> map_of (example_store 0) ''age'' = Some (PInt 30)
   \<and> map_of (snd (extend_query_ranges example_store 0 example_rfd (Some example_data)) 0) ''age''
       = Some (PList [PInt 28, PInt 29, PInt 30, PInt 31, PInt 32])"
  by (simp add: example_call) (simp add: example_store_def example_query_def)

text \<open>
  Claim C7 as amended: \<^verbatim>\<open>extend_query_ranges\<close> updates the query it is given in place and,
  when it returns, returns that same object; no other object of the store changes. In
  the updated query the attributes and their order are those of the input, every
  attribute that is no key of the RFD keeps its value, and every attribute holds its
  original value or a list.
\<close>

theorem extend_query_ranges_updates_in_place:
  "(\<forall>r. fst (extend_query_ranges h a rfd data_set) = Inr r \<longrightarrow> r = a)
   \<and> (\<forall>b. b \<noteq> a \<longrightarrow> snd (extend_query_ranges h a rfd data_set) b = h b)
   \<and> map fst (snd (extend_query_ranges h a rfd data_set) a) = map fst (h a)
   \<and> (\<forall>k. map_of rfd k = None \<longrightarrow>
          map_of (snd (extend_query_ranges h a rfd data_set) a) k = map_of (h a) k)
   \<and> (\<forall>k. map_of (snd (extend_query_ranges h a rfd data_set) a) k = map_of (h a) k
          \<or> (\<exists>vs. map_of (snd (extend_query_ranges h a rfd data_set) a) k = Some (PList vs)))"
proof -
  obtain e q' where loop: "extend_loop rfd data_set (h a) (h a) = (e, q')"
    by (cases "extend_loop rfd data_set (h a) (h a)")
  have st: "snd (extend_query_ranges h a rfd data_set) = h(a := q')"
    using loop by (simp add: extend_query_ranges_store)
  have "\<forall>r. fst (extend_query_ranges h a rfd data_set) = Inr r \<longrightarrow> r = a"
    by (auto simp: extend_query_ranges_result split: option.splits)
  moreover have "map fst q' = map fst (h a)"
    by (rule extend_loop_keys [OF loop]) simp
  moreover have "\<forall>k. map_of rfd k = None \<longrightarrow> map_of q' k = map_of (h a) k"
    using extend_loop_outside [OF loop] by blast
  moreover have "\<forall>k. map_of q' k = map_of (h a) k \<or> (\<exists>vs. map_of q' k = Some (PList vs))"
    using extend_loop_value [OF loop] by blast
  ultimately show ?thesis
    unfolding st by simp
qed

theorem extend_query_ranges_updates_in_place_witness:
  "fst (extend_query_ranges example_store 0 example_rfd (Some example_data)) = Inr 0
   \<and> (1 :: nat) \<noteq> 0
   \<and> snd (extend_query_ranges example_store 0 example_rfd (Some example_data)) 1 = example_store 1
   \<and> map fst (snd (extend_query_ranges example_store 0 example_rfd (Some example_data)) 0)
       = [''age'', ''city'', ''zip'', ''w'', ''name'']
   \<and> map_of example_rfd ''name'' = None
   \<and> map_of (snd (extend_query_ranges example_store 0 example_rfd (Some example_data)) 0) ''name''
       = Some (PStr ''Ada'')"
proof -
  have ok: "fst (extend_query_ranges example_store 0 example_rfd (Some example_data)) = Inr 0"
    by (simp add: example_call)
  have out: "map_of example_rfd ''name'' = None"
    by (simp add: example_rfd_def)
  have q: "map fst (example_store 0) = [''age'', ''city'', ''zip'', ''w'', ''name'']"
    and n: "map_of (example_store 0) ''name'' = Some (PStr ''Ada'')"
    by (simp_all add: example_store_def example_query_def)
  from extend_query_ranges_updates_in_place
         [of example_store 0 example_rfd "Some example_data"] ok out q n
  show ?thesis by simp
qed

section \<open>Properties of the rendering\<close>

lemma lhs_elements_eval:
  assumes "map_of rfd ''RHS'' = Some (CStr rhs)"
    and "\<forall>(key, val) \<in> set items. key \<noteq> ''RHS'' \<and> key \<noteq> rhs \<longrightarrow> (\<forall>s. val \<noteq> CStr s)"
  shows "lhs_elements str_float rfd items
    = Inr (map (\<lambda>(key, val). if key \<noteq> ''RHS'' \<and> key \<noteq> rhs \<and> val \<noteq> CNaN
                               then ''('' @ key @ '' <= '' @ str_cell str_float val @ '') '' else [])
             items)"
  using assms(2)
proof (induction items)
  case Nil
  then show ?case by simp
next
  case (Cons item items)
  obtain key val where item: "item = (key, val)" by (cases item)
  have "lhs_element str_float rfd key val
     = Inr (if key \<noteq> ''RHS'' \<and> key \<noteq> rhs \<and> val \<noteq> CNaN
            then ''('' @ key @ '' <= '' @ str_cell str_float val @ '') '' else [])"
    using assms(1) Cons.prems item
    by (cases val) (auto simp: lhs_element_def getitem_def)
  with Cons item show ?case by simp
qed

text \<open>
  Elements that each end in a space, followed by a last part, are the elements without
  that space and the last part, joined by spaces.
\<close>

lemma concat_elements:
  assumes "\<And>key val. g key val = f key val @ '' ''"
  shows "concat (map (\<lambda>(key, val). if P key val then g key val else []) items) @ last_part
     = join '' '' (map (\<lambda>(key, val). f key val) (filter (\<lambda>(key, val). P key val) items) @ [last_part])"
proof (induction items)
  case Nil
  then show ?case by simp
next
  case (Cons item items)
  obtain key val where item: "item = (key, val)" by (cases item)
  have j: "join '' '' (s # ss @ [last_part]) = s @ '' '' @ join '' '' (ss @ [last_part])" for s ss
    by (cases ss) simp_all
  from Cons item show ?case by (simp add: j assms)
qed

text \<open>
  Claim C9: for an RFD record whose \<^verbatim>\<open>RHS\<close> names an attribute of the record and whose
  other values are thresholds (numbers or NaN), \<^verbatim>\<open>rfd_to_string\<close> returns the rendering
  of the specification: the attributes other than \<^verbatim>\<open>RHS\<close> and the dependent one whose
  threshold is not NaN, each as \<^verbatim>\<open>(attr <= threshold)\<close>, joined by spaces with the part
  \<^verbatim>\<open>---> (rhs <= threshold of rhs)\<close> after them.
\<close>

theorem rfd_to_string_rendering:
  assumes "map_of rfd ''RHS'' = Some (CStr rhs)" and "map_of rfd rhs = Some t"
    and "\<forall>(key, val) \<in> set rfd. key \<noteq> ''RHS'' \<and> key \<noteq> rhs \<longrightarrow> (\<forall>s. val \<noteq> CStr s)"
  shows "rfd_to_string str_float rfd = Inr (spec_rendering str_float rfd rhs t)"
proof -
  have "concat (map (\<lambda>(key, val). if key \<noteq> ''RHS'' \<and> key \<noteq> rhs \<and> val \<noteq> CNaN
                               then ''('' @ key @ '' <= '' @ str_cell str_float val @ '') '' else [])
             rfd) @ (''---> ('' @ rhs @ '' <= '' @ str_cell str_float t @ '')'')
     = spec_rendering str_float rfd rhs t"
    unfolding spec_rendering_def
    by (rule concat_elements [where P = "\<lambda>key val. key \<noteq> ''RHS'' \<and> key \<noteq> rhs \<and> val \<noteq> CNaN"]) simp
  then show ?thesis
    using assms(1,2) lhs_elements_eval [OF assms(1,3), of str_float]
    by (simp add: rfd_to_string_def getitem_def)
qed

theorem rfd_to_string_rendering_witness:
  "map_of example_rfd ''RHS'' = Some (CStr ''price'') \<and> map_of example_rfd ''price'' = Some (CNum 3)
   \<and> rfd_to_string example_str_float example_rfd
       = Inr ''(age <= 2.0) (city <= 1.0) (w <= 1.0) ---> (price <= 3.0)''"
proof -
  have h1: "map_of example_rfd ''RHS'' = Some (CStr ''price'')"
    and h2: "map_of example_rfd ''price'' = Some (CNum 3)"
    and h3: "\<forall>(key, val) \<in> set example_rfd. key \<noteq> ''RHS'' \<and> key \<noteq> ''price'' \<longrightarrow> (\<forall>s. val \<noteq> CStr s)"
    by (simp_all add: example_rfd_def)
  have r: "spec_rendering example_str_float example_rfd ''price'' (CNum 3)
             = ''(age <= 2.0) (city <= 1.0) (w <= 1.0) ---> (price <= 3.0)''"
    by (simp add: spec_rendering_def example_rfd_def example_str_float_def)
  from rfd_to_string_rendering [OF h1 h2 h3, of example_str_float] h1 h2 r
  show ?thesis by simp
qed

end
